theory Spec2Isabelle
  imports Main "HOL-Library.Word"
begin

unbundle bit_operations_syntax

section \<open>The serial driver (src/system/dev/ser\_driver.c)\<close>

text \<open>
  A shallow embedding of the serial driver. Every C function of the driver is a HOL
  function of the same name that takes the driver's globals as a record and returns
  them updated. What the driver calls but does not define (the RTOS mutex and queue, the
  stream set, the COBS codec, the V5 serial SDK, the VFS) is either a field of the
  environment record \<open>env\<close>, whose value is the answer the callee gives, or a small
  definition written after the prose description of the driver and marked as such.
\<close>

subsection \<open>Machine types and outcomes\<close>

type_synonym u8 = "8 word"
type_synonym u32 = "32 word"

text \<open>\<open>int32_t\<close> in two's complement: \<open>- 1\<close> is the word of all ones.\<close>

type_synonym s32 = "32 word"

text \<open>
  \<open>return len\<close> in a function that returns \<open>int\<close> converts a \<open>size_t\<close> to an
  \<open>int\<close>. Both are 32 bits wide on the driver's target (the words of
  \<open>ser_file_s_t\<close> are): the result is the low 32 bits of the value read in two's
  complement, so a length from \<open>2 ^ 31\<close> on comes out negative.
\<close>

definition size_t_to_int :: "nat \<Rightarrow> int" where
  "size_t_to_int n =
     (let m = int n mod 2 ^ 32 in if m < 2 ^ 31 then m else m - 2 ^ 32)"

text \<open>
  A call either returns, never returns (it waits for something that does not come), or
  leaves the memory it was given (a store outside the caller's buffer, a null or
  dangling handle).
\<close>

datatype 'a exec = Ret 'a | Hang | Fault

text \<open>The values the driver stores into \<open>r->_errno\<close>; \<open>None\<close> is 0.\<close>

datatype errno_t = EACCES | EIO | ENAMETOOLONG | ESPIPE

record reent =
  errno :: "errno_t option"

subsection \<open>Stream handles\<close>

text \<open>
  \<open>ser_file_s_t\<close>: the stream id (the union of a 32-bit word with four bytes, read
  little-endian as the \<open>*_STREAM_ID\<close> comments say) and the flag word.
\<close>

record ser_file_s_t =
  stream_id :: u32
  flags :: u32

definition E_NOBLK_WRITE :: u32 where
  "E_NOBLK_WRITE = 1"

definition STDIN_STREAM_ID :: u32 where
  "STDIN_STREAM_ID = 0x706e6973"

definition STDOUT_STREAM_ID :: u32 where
  "STDOUT_STREAM_ID = 0x74756f73"

definition STDERR_STREAM_ID :: u32 where
  "STDERR_STREAM_ID = 0x72726573"

definition KDBG_STREAM_ID :: u32 where
  "KDBG_STREAM_ID = 0x6762646b"

definition RESERVED_SER_FILES :: "ser_file_s_t list" where
  "RESERVED_SER_FILES =
     [\<lparr>stream_id = STDIN_STREAM_ID, flags = 0\<rparr>,
      \<lparr>stream_id = STDOUT_STREAM_ID, flags = 0\<rparr>,
      \<lparr>stream_id = STDERR_STREAM_ID, flags = 0\<rparr>,
      \<lparr>stream_id = KDBG_STREAM_ID, flags = 0\<rparr>]"

text \<open>
  A handle (\<open>void* arg\<close>) points either at an entry of \<open>RESERVED_SER_FILES\<close> or at
  a block that \<open>ser_open_r\<close> allocated.
\<close>

datatype ser_file_ptr = Reserved nat | Allocated nat

subsection \<open>RTOS primitives\<close>

text \<open>
  Modelled from the spec: \<open>kapi.h\<close>, which defines \<open>TIMEOUT_MAX\<close>, is not under
  src/. The spec's words for the two timeouts the driver passes are "zero" and
  "indefinite"; \<open>Ticks n\<close> is a wait of \<open>n\<close> ticks and \<open>TIMEOUT_MAX\<close> the
  indefinite one.
\<close>

datatype timeout = Ticks u32 | TIMEOUT_MAX

datatype mutex = read_mtx | write_mtx

text \<open>The mutex calls a driver function makes, in order.\<close>

datatype call = Mutex_take mutex timeout | Mutex_give mutex

fun is_take :: "call \<Rightarrow> bool" where
  "is_take (Mutex_take m t) = True"
| "is_take (Mutex_give m) = False"

text \<open>
  Modelled from the spec: the queue primitive (\<open>queue_create_static\<close>,
  \<open>queue_get_waiting\<close>, \<open>queue_append\<close>, \<open>queue_recv\<close>, \<open>queue_reset\<close>) is
  not under src/. Per the spec it is a bounded FIFO byte queue with blocking and
  non-blocking push and a reset. No other task runs inside a modelled call, so a full
  queue stays full: a push with a finite timeout then fails, and a push with the
  indefinite timeout never returns. The same holds for a receive from an empty queue.
\<close>

record queue =
  items :: "u8 list"
  capacity :: nat

definition queue_create_static :: "nat \<Rightarrow> queue" where
  "queue_create_static n = \<lparr>items = [], capacity = n\<rparr>"

definition queue_get_waiting :: "queue \<Rightarrow> u32" where
  "queue_get_waiting q = of_nat (length (items q))"

definition queue_reset :: "queue \<Rightarrow> queue" where
  "queue_reset q = q\<lparr>items := []\<rparr>"

definition queue_append :: "queue \<Rightarrow> u8 \<Rightarrow> timeout \<Rightarrow> (bool \<times> queue) exec" where
  "queue_append q b t =
     (if length (items q) < capacity q then Ret (True, q\<lparr>items := items q @ [b]\<rparr>)
      else (case t of Ticks n \<Rightarrow> Ret (False, q) | TIMEOUT_MAX \<Rightarrow> Hang))"

definition queue_recv :: "queue \<Rightarrow> timeout \<Rightarrow> (bool \<times> queue) exec" where
  "queue_recv q t =
     (case items q of
        x # xs \<Rightarrow> Ret (True, q\<lparr>items := xs\<rparr>)
      | [] \<Rightarrow> (case t of Ticks n \<Rightarrow> Ret (False, q) | TIMEOUT_MAX \<Rightarrow> Hang))"

subsection \<open>The stream policy registry\<close>

text \<open>
  Modelled from the spec: \<open>common/set.h\<close> (\<open>list_contains\<close>, \<open>set_contains\<close>,
  \<open>set_add\<close>, \<open>set_rm\<close>) is not under src/. Per the spec the registry is a set
  of stream tags, insertion order irrelevant, membership-tested only, and
  \<open>list_contains\<close> tests membership in the first \<open>sz\<close> entries of an array.
\<close>

definition list_contains :: "u32 list \<Rightarrow> nat \<Rightarrow> u32 \<Rightarrow> bool" where
  "list_contains list sz item = (item \<in> set (take sz list))"

definition set_initialize :: "u32 set" where
  "set_initialize = {}"

definition set_contains :: "u32 set \<Rightarrow> u32 \<Rightarrow> bool" where
  "set_contains S item = (item \<in> S)"

definition set_add :: "u32 set \<Rightarrow> u32 \<Rightarrow> u32 set" where
  "set_add S item = insert item S"

definition set_rm :: "u32 set \<Rightarrow> u32 \<Rightarrow> u32 set" where
  "set_rm S item = S - {item}"

definition guaranteed_delivery_streams :: "u32 list" where
  "guaranteed_delivery_streams = [STDERR_STREAM_ID]"

definition guaranteed_delivery_streams_size :: nat where
  "guaranteed_delivery_streams_size = length guaranteed_delivery_streams"

subsection \<open>Driver state and environment\<close>

definition VEX_SERIAL_BUFFER_SIZE :: nat where
  "VEX_SERIAL_BUFFER_SIZE = 2047"

definition E_COBS_ENABLED :: u32 where
  "E_COBS_ENABLED = 1"

text \<open>
  The driver's globals, and the handle records reachable through \<open>arg\<close> pointers.
\<close>

record ser_state =
  files :: "ser_file_ptr \<rightharpoonup> ser_file_s_t"
  enabled_streams_set :: "u32 set"
  ser_driver_runtime_config :: u32
  write_queue :: queue

text \<open>
  What the callees outside the driver answer during one call:
  \<^item> \<open>mutex_take m t\<close>: whether the mutex \<open>m\<close> is obtained within the timeout \<open>t\<close>;
  \<^item> \<open>cobs_encode buf id\<close>: the bytes the COBS encoder writes for the payload
    \<open>buf\<close> and the prefix \<open>id\<close>;
  \<^item> \<open>vexSerialWriteFree ch\<close>: the number of bytes the transport reports free;
  \<^item> \<open>vexSerialWriteBuffer ch n\<close>: the number of bytes the transport accepts when
    handed \<open>n\<close> bytes. The bytes it is handed are the queue's backing store
    \<open>write_buffer\<close>, which belongs to the queue primitive and is not modelled.
\<close>

record env =
  mutex_take :: "mutex \<Rightarrow> timeout \<Rightarrow> bool"
  cobs_encode :: "u8 list \<Rightarrow> u32 \<Rightarrow> u8 list"
  vexSerialWriteFree :: "u32 \<Rightarrow> u32"
  vexSerialWriteBuffer :: "u32 \<Rightarrow> u32 \<Rightarrow> u32"

text \<open>
  Modelled from the spec: \<open>common/cobs.h\<close> is not under src/. Per the spec
  \<open>cobs_encode_measure\<close> computes the exact encoded length.
\<close>

definition cobs_encode_measure :: "env \<Rightarrow> u8 list \<Rightarrow> u32 \<Rightarrow> nat" where
  "cobs_encode_measure e buf prefix = length (cobs_encode e buf prefix)"

subsection \<open>Output queue\<close>

text \<open>
  \<open>ser_output_write(buffer, size, noblock)\<close>: the list is the \<open>size\<close> bytes at
  \<open>buffer\<close>; each turn of the loop appends the first of them.
\<close>

fun ser_output_write :: "queue \<Rightarrow> u8 list \<Rightarrow> bool \<Rightarrow> (bool \<times> queue) exec" where
  "ser_output_write q [] noblock = Ret (True, q)"
| "ser_output_write q (b # buffer) noblock =
     (case queue_append q b (if noblock then Ticks 0 else TIMEOUT_MAX) of
        Ret (ok, q') \<Rightarrow> if \<not> ok then Ret (False, q') else ser_output_write q' buffer noblock
      | Hang \<Rightarrow> Hang
      | Fault \<Rightarrow> Fault)"

subsection \<open>Write path\<close>

text \<open>
  \<open>ser_write_r(r, arg, buf, len)\<close>: the list \<open>buf\<close> is the \<open>len\<close> bytes of the
  payload, so \<open>len\<close> is its length. The result is the list of mutex calls made,
  and, when the call returns, the returned \<open>int\<close> with the updated globals and
  \<open>reent\<close>. Each \<open>return len\<close> converts \<open>len\<close> from \<open>size_t\<close> to
  \<open>int\<close>. The test of line 166 is an assignment (\<open>&=\<close>), which the model
  performs. The array \<open>cobs_buf\<close> of \<open>cobs_len + 1\<close> bytes holds the bytes the
  encoder writes followed by the zero stored at index \<open>cobs_len\<close>.
\<close>

definition ser_write_r ::
  "env \<Rightarrow> ser_state \<Rightarrow> reent \<Rightarrow> ser_file_ptr \<Rightarrow> u8 list
     \<Rightarrow> call list \<times> (int \<times> ser_state \<times> reent) exec" where
  "ser_write_r e s r arg buf =
     (case files s arg of
        None \<Rightarrow> ([], Fault)
      | Some file \<Rightarrow>
          if \<not> list_contains guaranteed_delivery_streams guaranteed_delivery_streams_size
                 (stream_id file)
             \<and> \<not> set_contains (enabled_streams_set s) (stream_id file)
          then ([], Ret (size_t_to_int (length buf), s, r))
          else
            let s1 = s\<lparr>ser_driver_runtime_config :=
                         ser_driver_runtime_config s AND E_COBS_ENABLED\<rparr>
            in if ser_driver_runtime_config s1 \<noteq> 0 then
                 let cobs_len = cobs_encode_measure e buf (stream_id file);
                     t = (if flags file AND E_NOBLK_WRITE \<noteq> 0 then Ticks 0 else TIMEOUT_MAX)
                 in if \<not> mutex_take e write_mtx t
                    then ([Mutex_take write_mtx t], Ret (0, s1, r\<lparr>errno := Some EACCES\<rparr>))
                    else
                      let cobs_buf = cobs_encode e buf (stream_id file) @ [0]
                      in (case ser_output_write (write_queue s1) (take (cobs_len + 1) cobs_buf)
                                 (flags file AND E_NOBLK_WRITE \<noteq> 0) of
                            Ret (ret, q') \<Rightarrow>
                              ([Mutex_take write_mtx t, Mutex_give write_mtx],
                               if \<not> ret
                               then Ret (0, s1\<lparr>write_queue := q'\<rparr>, r\<lparr>errno := Some EIO\<rparr>)
                               else Ret (size_t_to_int (length buf), s1\<lparr>write_queue := q'\<rparr>, r))
                          | Hang \<Rightarrow> ([Mutex_take write_mtx t], Hang)
                          | Fault \<Rightarrow> ([Mutex_take write_mtx t], Fault))
               else
                 if \<not> mutex_take e write_mtx TIMEOUT_MAX
                 then ([Mutex_take write_mtx TIMEOUT_MAX],
                       Ret (0, s1, r\<lparr>errno := Some EACCES\<rparr>))
                 else
                   (case ser_output_write (write_queue s1) buf
                              (flags file AND E_NOBLK_WRITE \<noteq> 0) of
                      Ret (ret, q') \<Rightarrow>
                        ([Mutex_take write_mtx TIMEOUT_MAX, Mutex_give write_mtx],
                         if \<not> ret
                         then Ret (0, s1\<lparr>write_queue := q'\<rparr>, r\<lparr>errno := Some EIO\<rparr>)
                         else Ret (size_t_to_int (length buf), s1\<lparr>write_queue := q'\<rparr>, r))
                    | Hang \<Rightarrow> ([Mutex_take write_mtx TIMEOUT_MAX], Hang)
                    | Fault \<Rightarrow> ([Mutex_take write_mtx TIMEOUT_MAX], Fault)))"

subsection \<open>Flushing the output queue\<close>

text \<open>
  The loop \<open>while (ret--) queue_recv(write_queue, NULL, 0)\<close> of
  \<open>ser_output_flush\<close>, on the 32-bit counter \<open>ret\<close>.
\<close>

function ser_output_flush_loop :: "u32 \<Rightarrow> queue \<Rightarrow> queue exec" where
  "ser_output_flush_loop ret q =
     (if ret \<noteq> 0 then
        (case queue_recv q (Ticks 0) of
           Ret (ok, q') \<Rightarrow> ser_output_flush_loop (ret - 1) q'
         | Hang \<Rightarrow> Hang
         | Fault \<Rightarrow> Fault)
      else Ret q)"
  by pat_completeness auto
termination
  by (relation "measure (\<lambda>(ret, q). unat ret)") (auto simp: unat_minus_one unat_gt_0 intro: diff_less)

declare ser_output_flush_loop.simps [simp del]

definition ser_output_flush :: "env \<Rightarrow> ser_state \<Rightarrow> ser_state exec" where
  "ser_output_flush e s =
     (let waiting = queue_get_waiting (write_queue s)
      in if waiting \<noteq> 0 \<and> waiting \<le> vexSerialWriteFree e 1 then
           let ret = vexSerialWriteBuffer e 1 waiting
           in if ret = waiting then Ret (s\<lparr>write_queue := queue_reset (write_queue s)\<rparr>)
              else (case ser_output_flush_loop ret (write_queue s) of
                      Ret q' \<Rightarrow> Ret (s\<lparr>write_queue := q'\<rparr>)
                    | Hang \<Rightarrow> Hang
                    | Fault \<Rightarrow> Fault)
         else Ret s)"

subsection \<open>Read path\<close>

text \<open>
  \<open>inp_buffer_read(0)\<close> comes from the serial daemon. The list \<open>inp\<close> holds the
  answers of its coming calls, \<open>-1\<close> for "no data"; once the list is used up nothing
  further arrives, so every later call answers \<open>-1\<close>.

  The loop of \<open>ser_read_r\<close>: \<open>buffer\<close> is the caller's memory at \<open>buffer\<close>, as
  long as the caller made it, and the moving pointer is \<open>buffer + read\<close>. With no
  byte read and no data to come the loop polls for ever.
\<close>

fun ser_read_r_loop :: "nat \<Rightarrow> s32 list \<Rightarrow> nat \<Rightarrow> u8 list \<Rightarrow> (nat \<times> u8 list) exec" where
  "ser_read_r_loop len [] read buffer =
     (if read < len then (if read \<noteq> 0 then Ret (read, buffer) else Hang)
      else Ret (read, buffer))"
| "ser_read_r_loop len (c # inp) read buffer =
     (if read < len then
        if c = - 1 then
          (if read \<noteq> 0 then Ret (read, buffer) else ser_read_r_loop len inp read buffer)
        else if read < length buffer then
          (if c = 10 then Ret (read + 1, buffer[read := ucast c])
           else ser_read_r_loop len inp (read + 1) (buffer[read := ucast c]))
        else Fault
      else Ret (read, buffer))"

text \<open>
  \<open>ser_read_r(r, arg, buffer, len)\<close>; \<open>arg\<close> is not used. The result is the list
  of mutex calls made and, when the call returns, the returned \<open>int\<close>, the
  \<open>reent\<close> and the caller's memory. The count returned is a number of bytes that were
  stored in the caller's memory; that memory is taken to be smaller than \<open>2 ^ 31\<close>
  bytes, so the conversion of the count to \<open>int\<close> keeps it.
\<close>

definition ser_read_r ::
  "env \<Rightarrow> reent \<Rightarrow> ser_file_ptr \<Rightarrow> u8 list \<Rightarrow> nat \<Rightarrow> s32 list
     \<Rightarrow> call list \<times> (int \<times> reent \<times> u8 list) exec" where
  "ser_read_r e r arg buffer len inp =
     (if \<not> mutex_take e read_mtx TIMEOUT_MAX
      then ([Mutex_take read_mtx TIMEOUT_MAX], Ret (0, r\<lparr>errno := Some EACCES\<rparr>, buffer))
      else
        (case ser_read_r_loop len inp 0 buffer of
           Ret (read, buffer') \<Rightarrow>
             ([Mutex_take read_mtx TIMEOUT_MAX, Mutex_give read_mtx],
              if read < length buffer' then Ret (int read, r, buffer'[read := 0]) else Fault)
         | Hang \<Rightarrow> ([Mutex_take read_mtx TIMEOUT_MAX], Hang)
         | Fault \<Rightarrow> ([Mutex_take read_mtx TIMEOUT_MAX], Fault)))"

subsection \<open>Opening a stream\<close>

text \<open>The descriptor numbers of \<open>unistd.h\<close>.\<close>

definition STDIN_FILENO :: int where
  "STDIN_FILENO = 0"

definition STDOUT_FILENO :: int where
  "STDOUT_FILENO = 1"

definition STDERR_FILENO :: int where
  "STDERR_FILENO = 2"

text \<open>
  \<open>ser_open_r\<close> either returns a number itself or ends in the call
  \<open>vfs_add_entry_r(r, ser_driver, arg)\<close>, whose result is the VFS's.
\<close>

datatype open_ret = Return int | Vfs_add_entry_r "ser_file_s_t option"

text \<open>
  A path is the characters of the C string before its terminating zero, so
  \<open>path[i] == '\0'\<close> is \<open>i = length path\<close>. The loop of lines 251 to 255:
\<close>

function ser_open_r_loop :: "string \<Rightarrow> nat \<Rightarrow> nat" where
  "ser_open_r_loop path i =
     (if i < 4 then (if \<not> i < length path then i else ser_open_r_loop path (i + 1)) else i)"
  by pat_completeness auto
termination
  by (relation "measure (\<lambda>(path, i). 4 - i)") auto

declare ser_open_r_loop.simps [simp del]

text \<open>
  \<open>memcpy(arg->stream, path, strlen(path))\<close> on the little-endian union: byte \<open>i\<close>
  of the stream id is replaced.
\<close>

definition set_stream_byte :: "u32 \<Rightarrow> nat \<Rightarrow> u8 \<Rightarrow> u32" where
  "set_stream_byte w i b = (w AND NOT (push_bit (8 * i) 0xFF)) OR push_bit (8 * i) (ucast b)"

fun memcpy_stream :: "u32 \<Rightarrow> nat \<Rightarrow> u8 list \<Rightarrow> u32" where
  "memcpy_stream w i [] = w"
| "memcpy_stream w i (b # bs) = memcpy_stream (set_stream_byte w i b) (Suc i) bs"

text \<open>
  \<open>ser_open_r(r, path, flags, mode)\<close>; \<open>flags\<close> and \<open>mode\<close> are not used.
  \<open>kmalloc\<close> is the block the allocator hands out, with whatever it holds, or
  \<open>None\<close> for a null pointer, which the source hands on unchecked: \<open>memcpy\<close>
  stores through it unless the path is empty and there is nothing to copy, and then the
  null pointer goes to the VFS as the new entry's argument.
\<close>

definition ser_open_r :: "reent \<Rightarrow> ser_file_s_t option \<Rightarrow> string \<Rightarrow> (open_ret \<times> reent) exec" where
  "ser_open_r r kmalloc path0 =
     (if path0 = [] then Ret (Return STDOUT_FILENO, r)
      else
        let path = (if hd path0 = CHR ''/'' then tl path0 else path0);
            i = ser_open_r_loop path 0
        in if i < length path then Ret (Return (- 1), r\<lparr>errno := Some ENAMETOOLONG\<rparr>)
           else if path = ''sout'' then Ret (Return STDOUT_FILENO, r)
           else if path = ''sin'' then Ret (Return STDIN_FILENO, r)
           else if path = ''serr'' then Ret (Return STDERR_FILENO, r)
           else (case kmalloc of
                   None \<Rightarrow> if path = [] then Ret (Vfs_add_entry_r None, r) else Fault
                 | Some arg \<Rightarrow>
                     Ret (Vfs_add_entry_r
                            (Some (arg\<lparr>stream_id :=
                                       memcpy_stream (stream_id arg) 0 (map of_char path)\<rparr>)),
                          r)))"

subsection \<open>Control interface\<close>

text \<open>
  Modelled from the spec: the header that gives the \<open>SERCTL_*\<close> actions their numbers
  is not under src/. The six verbs are the six cases of the \<open>switch\<close>;
  \<open>SERCTL_other a\<close> is an action number \<open>a\<close> that is none of them.
\<close>

datatype serctl_action =
    SERCTL_ACTIVATE | SERCTL_DEACTIVATE | SERCTL_BLKWRITE | SERCTL_NOBLKWRITE
  | SERCTL_ENABLE_COBS | SERCTL_DISABLE_COBS | SERCTL_other u32

text \<open>
  \<open>serctl(arg, action, parameter)\<close>. The local \<open>file\<close> is a copy of the handle's
  record (\<open>None\<close> when \<open>arg\<close> is null and the local is never assigned); the cases
  \<open>SERCTL_BLKWRITE\<close> and \<open>SERCTL_NOBLKWRITE\<close> assign to that local.
\<close>

definition serctl ::
  "ser_state \<Rightarrow> ser_file_ptr option \<Rightarrow> serctl_action \<Rightarrow> u32 \<Rightarrow> (u32 \<times> ser_state) exec" where
  "serctl s arg action parameter =
     (case (case arg of
              None \<Rightarrow> Ret None
            | Some p \<Rightarrow> (case files s p of None \<Rightarrow> Fault | Some f \<Rightarrow> Ret (Some f))) of
        Ret file \<Rightarrow>
          (case action of
             SERCTL_ACTIVATE \<Rightarrow>
               Ret (0, if \<not> list_contains guaranteed_delivery_streams
                               guaranteed_delivery_streams_size parameter
                       then s\<lparr>enabled_streams_set := set_add (enabled_streams_set s) parameter\<rparr>
                       else s)
           | SERCTL_DEACTIVATE \<Rightarrow>
               Ret (0, if \<not> list_contains guaranteed_delivery_streams
                               guaranteed_delivery_streams_size parameter
                       then s\<lparr>enabled_streams_set := set_rm (enabled_streams_set s) parameter\<rparr>
                       else s)
           | SERCTL_BLKWRITE \<Rightarrow>
               (let file' = map_option (\<lambda>f. f\<lparr>flags := flags f AND NOT E_NOBLK_WRITE\<rparr>) file
                in Ret (0, s))
           | SERCTL_NOBLKWRITE \<Rightarrow>
               (let file' = map_option (\<lambda>f. f\<lparr>flags := flags f OR E_NOBLK_WRITE\<rparr>) file
                in Ret (0, s))
           | SERCTL_ENABLE_COBS \<Rightarrow>
               Ret (0, s\<lparr>ser_driver_runtime_config :=
                            ser_driver_runtime_config s OR E_COBS_ENABLED\<rparr>)
           | SERCTL_DISABLE_COBS \<Rightarrow>
               Ret (0, s\<lparr>ser_driver_runtime_config :=
                            ser_driver_runtime_config s AND NOT E_COBS_ENABLED\<rparr>)
           | SERCTL_other a \<Rightarrow> Ret (- 1, s))
      | Hang \<Rightarrow> Hang
      | Fault \<Rightarrow> Fault)"

subsection \<open>Initialisation\<close>

text \<open>
  The globals as the C start-up leaves them: the statics zeroed, the reserved handle
  records holding their initialisers.
\<close>

definition static_init :: ser_state where
  "static_init =
     \<lparr>files = (\<lambda>p. case p of
                    Reserved i \<Rightarrow> if i < length RESERVED_SER_FILES
                                  then Some (RESERVED_SER_FILES ! i) else None
                  | Allocated a \<Rightarrow> None),
      enabled_streams_set = {},
      ser_driver_runtime_config = 0,
      write_queue = \<lparr>items = [], capacity = 0\<rparr>\<rparr>"

text \<open>
  \<open>ser_driver_initialize\<close>, as far as it touches the globals above (the mutexes have no
  state here, and the four \<open>vfs_update_entry\<close> calls belong to the VFS).
\<close>

definition ser_driver_initialize :: "ser_state \<Rightarrow> ser_state" where
  "ser_driver_initialize s =
     s\<lparr>ser_driver_runtime_config := ser_driver_runtime_config s OR E_COBS_ENABLED,
       enabled_streams_set := set_add set_initialize STDOUT_STREAM_ID,
       write_queue := queue_create_static VEX_SERIAL_BUFFER_SIZE\<rparr>"

section \<open>Notions of the prose description\<close>

text \<open>
  A control call passes either no handle or one that points at a handle record.
\<close>

definition valid_arg :: "ser_state \<Rightarrow> ser_file_ptr option \<Rightarrow> bool" where
  "valid_arg s arg = (case arg of None \<Rightarrow> True | Some p \<Rightarrow> files s p \<noteq> None)"

text \<open>A path with one leading separator stripped.\<close>

definition strip_separator :: "string \<Rightarrow> string" where
  "strip_separator path = (case path of [] \<Rightarrow> [] | c # cs \<Rightarrow> if c = CHR ''/'' then cs else path)"

subsection \<open>The read path\<close>

text \<open>
  The inbound source delivers a byte or signals "no data"; \<open>inp_answer\<close> is the
  \<open>int32_t\<close> that \<open>inp_buffer_read\<close> answers for either.
\<close>

definition inp_answer :: "u8 option \<Rightarrow> s32" where
  "inp_answer x = (case x of None \<Rightarrow> - 1 | Some b \<Rightarrow> ucast b)"

text \<open>
  Accumulating once a first byte is there: bytes are taken one at a time; the read ends
  when \<open>len\<close> bytes are stored, after a newline byte (which is stored), or at a
  "no data" signal.
\<close>

fun accumulate :: "nat \<Rightarrow> u8 option list \<Rightarrow> u8 list" where
  "accumulate 0 xs = []"
| "accumulate (Suc n) [] = []"
| "accumulate (Suc n) (None # xs) = []"
| "accumulate (Suc n) (Some b # xs) = (if b = 10 then [b] else b # accumulate n xs)"

text \<open>
  Before the first byte a "no data" signal is polled over; if no byte ever comes the read
  does not end (\<open>None\<close>). Otherwise the bytes stored are those accumulated from the
  first byte on.
\<close>

definition ser_read_r_spec :: "nat \<Rightarrow> u8 option list \<Rightarrow> u8 list option" where
  "ser_read_r_spec len xs =
     (case dropWhile (\<lambda>x. x = None) xs of
        [] \<Rightarrow> None
      | y # ys \<Rightarrow> Some (accumulate len (y # ys)))"

section \<open>Example environments and states\<close>

text \<open>
  An environment in which every mutex is obtained (or none, for \<open>locks = False\<close>), the
  encoder puts a length byte in front of the payload, and the transport reports 2047
  bytes free and accepts 3 bytes of whatever it is handed.
\<close>

definition env_example :: "bool \<Rightarrow> env" where
  "env_example locks =
     \<lparr>mutex_take = (\<lambda>m t. locks),
      cobs_encode = (\<lambda>buf prefix. of_nat (Suc (length buf)) # buf),
      vexSerialWriteFree = (\<lambda>ch. 2047),
      vexSerialWriteBuffer = (\<lambda>ch n. 3)\<rparr>"

text \<open>The driver after initialisation, and the same with framing switched off.\<close>

definition s_init :: ser_state where
  "s_init = ser_driver_initialize static_init"

definition s_raw :: ser_state where
  "s_raw = s_init\<lparr>ser_driver_runtime_config := 0\<rparr>"

text \<open>The initialised driver with ten bytes waiting in the output queue.\<close>

definition s_ten :: ser_state where
  "s_ten = s_init\<lparr>write_queue := \<lparr>items = [1, 2, 3, 4, 5, 6, 7, 8, 9, 10],
                                   capacity = VEX_SERIAL_BUFFER_SIZE\<rparr>\<rparr>"

text \<open>The initialised driver with its output queue full.\<close>

definition s_full :: ser_state where
  "s_full = s_init\<lparr>write_queue := \<lparr>items = replicate VEX_SERIAL_BUFFER_SIZE 7,
                                    capacity = VEX_SERIAL_BUFFER_SIZE\<rparr>\<rparr>"

text \<open>
  The initialised driver with one more handle: an allocated record on the standard-output
  stream with the non-blocking flag set.
\<close>

definition s_nb :: ser_state where
  "s_nb = s_init\<lparr>files := (files s_init)(Allocated 0 \<mapsto>
                     \<lparr>stream_id = STDOUT_STREAM_ID, flags = E_NOBLK_WRITE\<rparr>)\<rparr>"

definition r_clean :: reent where
  "r_clean = \<lparr>errno = None\<rparr>"

section \<open>Properties\<close>

subsection \<open>Facts about the constants and the example states\<close>

lemmas tag_defs = STDIN_STREAM_ID_def STDOUT_STREAM_ID_def STDERR_STREAM_ID_def KDBG_STREAM_ID_def

lemma list_contains_guaranteed:
  "list_contains guaranteed_delivery_streams guaranteed_delivery_streams_size tag
     = (tag = STDERR_STREAM_ID)"
  by (auto simp: list_contains_def guaranteed_delivery_streams_def
      guaranteed_delivery_streams_size_def)

lemma files_s_init:
  "files s_init (Reserved 0) = Some \<lparr>stream_id = STDIN_STREAM_ID, flags = 0\<rparr>"
  "files s_init (Reserved 1) = Some \<lparr>stream_id = STDOUT_STREAM_ID, flags = 0\<rparr>"
  "files s_init (Reserved (Suc 0)) = Some \<lparr>stream_id = STDOUT_STREAM_ID, flags = 0\<rparr>"
  "files s_init (Reserved 2) = Some \<lparr>stream_id = STDERR_STREAM_ID, flags = 0\<rparr>"
  "files s_init (Reserved 3) = Some \<lparr>stream_id = KDBG_STREAM_ID, flags = 0\<rparr>"
  by (simp_all add: s_init_def ser_driver_initialize_def static_init_def RESERVED_SER_FILES_def)

lemma globals_s_init:
  "enabled_streams_set s_init = {STDOUT_STREAM_ID}"
  "ser_driver_runtime_config s_init = 1"
  "write_queue s_init = \<lparr>items = [], capacity = VEX_SERIAL_BUFFER_SIZE\<rparr>"
  by (simp_all add: s_init_def ser_driver_initialize_def static_init_def set_add_def
      set_initialize_def E_COBS_ENABLED_def queue_create_static_def)

lemma files_s_nb:
  "files s_nb (Allocated 0) = Some \<lparr>stream_id = STDOUT_STREAM_ID, flags = E_NOBLK_WRITE\<rparr>"
  "enabled_streams_set s_nb = {STDOUT_STREAM_ID}"
  "ser_driver_runtime_config s_nb = 1"
  by (simp_all add: s_nb_def globals_s_init)

text \<open>The conversion keeps a length below \<open>2 ^ 31\<close> and turns \<open>2 ^ 31\<close> negative.\<close>

lemma size_t_to_int_small: "n < 2 ^ 31 \<Longrightarrow> size_t_to_int n = int n"
proof -
  assume a: "n < 2 ^ 31"
  then have "int n < 2 ^ 31" by (metis of_nat_less_iff of_nat_numeral of_nat_power)
  moreover from this have "int n mod 2 ^ 32 = int n" by simp
  ultimately show ?thesis by (simp add: size_t_to_int_def Let_def)
qed

lemma size_t_to_int_2_31: "size_t_to_int 2147483648 = - 2147483648"
  by (simp add: size_t_to_int_def Let_def)

subsection \<open>Policy filtering\<close>

text \<open>
  C1. A write through a handle whose tag is neither in the guaranteed-delivery list nor in
  the enabled-streams registry returns \<open>len\<close> converted to \<open>int\<close>, which is
  \<open>len\<close> itself whenever \<open>len < 2 ^ 31\<close>; it stores no error, makes no mutex
  call and leaves the globals, so in particular the output queue, as they were.
\<close>

theorem ser_write_r_filtered:
  assumes "files s arg = Some file"
    and "\<not> list_contains guaranteed_delivery_streams guaranteed_delivery_streams_size
             (stream_id file)"
    and "\<not> set_contains (enabled_streams_set s) (stream_id file)"
  shows "ser_write_r e s r arg buf = ([], Ret (size_t_to_int (length buf), s, r))
    \<and> (length buf < 2 ^ 31 \<longrightarrow>
          ser_write_r e s r arg buf = ([], Ret (int (length buf), s, r)))"
  using assms by (simp add: ser_write_r_def size_t_to_int_small)

text \<open>
  The debug channel is not enabled after initialisation: a write of three bytes to it
  returns 3 and changes nothing.
\<close>

theorem ser_write_r_filtered_witness:
  "files s_init (Reserved 3) = Some \<lparr>stream_id = KDBG_STREAM_ID, flags = 0\<rparr>
   \<and> \<not> list_contains guaranteed_delivery_streams guaranteed_delivery_streams_size KDBG_STREAM_ID
   \<and> \<not> set_contains (enabled_streams_set s_init) KDBG_STREAM_ID
   \<and> length [1, 2, 3 :: u8] < 2 ^ 31
   \<and> ser_write_r (env_example True) s_init r_clean (Reserved 3) [1, 2, 3]
       = ([], Ret (3, s_init, r_clean))"
proof -
  have h1: "files s_init (Reserved 3) = Some \<lparr>stream_id = KDBG_STREAM_ID, flags = 0\<rparr>"
    by (simp add: files_s_init)
  have h2: "\<not> list_contains guaranteed_delivery_streams guaranteed_delivery_streams_size
                (stream_id \<lparr>stream_id = KDBG_STREAM_ID, flags = 0\<rparr>)"
    by (simp add: list_contains_guaranteed tag_defs)
  have h3: "\<not> set_contains (enabled_streams_set s_init)
                (stream_id \<lparr>stream_id = KDBG_STREAM_ID, flags = 0\<rparr>)"
    by (simp add: set_contains_def globals_s_init tag_defs)
  show ?thesis
    using h1 h2 h3 ser_write_r_filtered [OF h1 h2 h3, of "env_example True" r_clean "[1, 2, 3]"]
    by (simp add: size_t_to_int_def)
qed

text \<open>
  The same write with \<open>len = 2 ^ 31\<close> (the filtered path never reads the payload)
  returns \<open>- 2 ^ 31\<close>, not \<open>len\<close>.
\<close>

theorem ser_write_r_filtered_counterexample:
  "files s_init (Reserved 3) = Some \<lparr>stream_id = KDBG_STREAM_ID, flags = 0\<rparr>
   \<and> \<not> list_contains guaranteed_delivery_streams guaranteed_delivery_streams_size KDBG_STREAM_ID
   \<and> \<not> set_contains (enabled_streams_set s_init) KDBG_STREAM_ID
   \<and> int (length (replicate 2147483648 (0 :: u8))) = 2147483648
   \<and> ser_write_r (env_example True) s_init r_clean (Reserved 3) (replicate 2147483648 0)
       = ([], Ret (- 2147483648, s_init, r_clean))
   \<and> ser_write_r (env_example True) s_init r_clean (Reserved 3) (replicate 2147483648 0)
       \<noteq> ([], Ret (int (length (replicate 2147483648 (0 :: u8))), s_init, r_clean))"
  by (simp add: ser_write_r_def files_s_init globals_s_init list_contains_guaranteed tag_defs
      set_contains_def size_t_to_int_2_31)



subsection \<open>The write lock\<close>

text \<open>
  C4. A write that passes the filter takes the write lock exactly once. With framing
  disabled the timeout is the indefinite one whatever the handle's flags; with framing
  enabled it is zero when the handle's non-blocking flag is set and indefinite otherwise.
\<close>

theorem ser_write_r_lock_timeout:
  assumes "files s arg = Some file"
    and "list_contains guaranteed_delivery_streams guaranteed_delivery_streams_size
           (stream_id file)
         \<or> set_contains (enabled_streams_set s) (stream_id file)"
  shows "filter is_take (fst (ser_write_r e s r arg buf)) =
          [Mutex_take write_mtx
             (if ser_driver_runtime_config s AND E_COBS_ENABLED = 0 then TIMEOUT_MAX
              else if flags file AND E_NOBLK_WRITE \<noteq> 0 then Ticks 0
              else TIMEOUT_MAX)]"
  using assms
  by (auto simp add: ser_write_r_def Let_def split: exec.split prod.split)

theorem ser_write_r_lock_timeout_witness:
  "files s_nb (Allocated 0) = Some \<lparr>stream_id = STDOUT_STREAM_ID, flags = E_NOBLK_WRITE\<rparr>
   \<and> set_contains (enabled_streams_set s_nb) STDOUT_STREAM_ID
   \<and> filter is_take (fst (ser_write_r (env_example True) s_nb r_clean (Allocated 0) [1, 2, 3]))
       = [Mutex_take write_mtx (Ticks 0)]
   \<and> filter is_take (fst (ser_write_r (env_example True)
                             (s_nb\<lparr>ser_driver_runtime_config := 0\<rparr>) r_clean (Allocated 0) [1, 2, 3]))
       = [Mutex_take write_mtx TIMEOUT_MAX]"
proof -
  let ?f = "\<lparr>stream_id = STDOUT_STREAM_ID, flags = E_NOBLK_WRITE\<rparr>"
  have h1: "files s_nb (Allocated 0) = Some ?f"
    by (simp add: files_s_nb)
  have h2: "list_contains guaranteed_delivery_streams guaranteed_delivery_streams_size
              (stream_id ?f)
            \<or> set_contains (enabled_streams_set s_nb) (stream_id ?f)"
    by (simp add: set_contains_def files_s_nb)
  have h1': "files (s_nb\<lparr>ser_driver_runtime_config := 0\<rparr>) (Allocated 0) = Some ?f"
    by (simp add: files_s_nb)
  have h2': "list_contains guaranteed_delivery_streams guaranteed_delivery_streams_size
              (stream_id ?f)
            \<or> set_contains (enabled_streams_set (s_nb\<lparr>ser_driver_runtime_config := 0\<rparr>))
                 (stream_id ?f)"
    by (simp add: set_contains_def files_s_nb)
  show ?thesis
    using h1 h2
      ser_write_r_lock_timeout [OF h1 h2, of "env_example True" r_clean "[1, 2, 3]"]
      ser_write_r_lock_timeout [OF h1' h2', of "env_example True" r_clean "[1, 2, 3]"]
    by (simp add: files_s_nb E_COBS_ENABLED_def E_NOBLK_WRITE_def set_contains_def)
qed

subsection \<open>Flushing\<close>

text \<open>
  The removal loop takes as many bytes off the head of the queue as its counter says (all
  of them when the counter is larger than the queue), and always ends.
\<close>

lemma ser_output_flush_loop_drop:
  "ser_output_flush_loop ret q = Ret (q\<lparr>items := drop (unat ret) (items q)\<rparr>)"
proof (induction ret q rule: ser_output_flush_loop.induct)
  case (1 ret q)
  show ?case
  proof (cases "ret = 0")
    case True
    then show ?thesis by (subst ser_output_flush_loop.simps) simp
  next
    case False
    then have u: "unat ret = Suc (unat (ret - 1))"
      by (simp add: unat_minus_one unat_gt_0)
    show ?thesis
    proof (cases "items q")
      case Nil
      then have "queue_recv q (Ticks 0) = Ret (False, q)"
        by (simp add: queue_recv_def)
      with 1 False Nil show ?thesis
        by (subst ser_output_flush_loop.simps) simp
    next
      case (Cons x xs)
      then have "queue_recv q (Ticks 0) = Ret (True, q\<lparr>items := xs\<rparr>)"
        by (simp add: queue_recv_def)
      with 1 False Cons u show ?thesis
        by (subst ser_output_flush_loop.simps) simp
    qed
  qed
qed

lemma queue_get_waiting_unat:
  "length (items q) \<le> VEX_SERIAL_BUFFER_SIZE \<Longrightarrow> unat (queue_get_waiting q) = length (items q)"
  by (simp add: queue_get_waiting_def VEX_SERIAL_BUFFER_SIZE_def unat_of_nat)

lemma globals_s_ten:
  "items (write_queue s_ten) = [1, 2, 3, 4, 5, 6, 7, 8, 9, 10]"
  "write_queue s_ten = \<lparr>items = [1, 2, 3, 4, 5, 6, 7, 8, 9, 10], capacity = VEX_SERIAL_BUFFER_SIZE\<rparr>"
  by (simp_all add: s_ten_def)

text \<open>
  C5. Let the output queue hold \<open>n > 0\<close> bytes (at most its 2047), let the transport
  report at least \<open>n\<close> bytes free, and let \<open>k\<close> be the number of bytes the bulk
  write accepts. If \<open>k < n\<close>, \<open>ser_output_flush\<close> returns with the first \<open>k\<close>
  bytes gone from the queue and the other \<open>n - k\<close> left in their order; if \<open>k = n\<close>,
  it returns with the queue empty.
\<close>

theorem ser_output_flush_partial:
  assumes "length (items (write_queue s)) \<le> VEX_SERIAL_BUFFER_SIZE"
    and "0 < length (items (write_queue s))"
    and "length (items (write_queue s)) \<le> unat (vexSerialWriteFree e 1)"
    and "k = unat (vexSerialWriteBuffer e 1 (queue_get_waiting (write_queue s)))"
  shows "(k < length (items (write_queue s)) \<longrightarrow>
            ser_output_flush e s =
              Ret (s\<lparr>write_queue := (write_queue s)\<lparr>items := drop k (items (write_queue s))\<rparr>\<rparr>))
       \<and> (k = length (items (write_queue s)) \<longrightarrow>
            ser_output_flush e s = Ret (s\<lparr>write_queue := (write_queue s)\<lparr>items := []\<rparr>\<rparr>))"
proof -
  let ?w = "queue_get_waiting (write_queue s)"
  let ?ret = "vexSerialWriteBuffer e 1 ?w"
  have w: "unat ?w = length (items (write_queue s))"
    using assms(1) by (rule queue_get_waiting_unat)
  have nz: "?w \<noteq> 0"
    using w assms(2) by (auto simp flip: unat_gt_0)
  have free: "?w \<le> vexSerialWriteFree e 1"
    using w assms(3) by (simp add: word_le_nat_alt)
  have eq: "(?ret = ?w) = (k = length (items (write_queue s)))"
    using w assms(4) by (simp add: word_unat_eq_iff)
  show ?thesis
    using nz free eq assms(4)
    by (auto simp: ser_output_flush_def Let_def ser_output_flush_loop_drop queue_reset_def)
qed

text \<open>Ten bytes waiting, three accepted: the last seven stay, in order.\<close>

theorem ser_output_flush_partial_witness:
  "length (items (write_queue s_ten)) = 10
   \<and> unat (vexSerialWriteFree (env_example True) 1) = 2047
   \<and> unat (vexSerialWriteBuffer (env_example True) 1 (queue_get_waiting (write_queue s_ten))) = 3
   \<and> ser_output_flush (env_example True) s_ten =
       Ret (s_ten\<lparr>write_queue := (write_queue s_ten)\<lparr>items := [4, 5, 6, 7, 8, 9, 10]\<rparr>\<rparr>)"
proof -
  have h1: "length (items (write_queue s_ten)) \<le> VEX_SERIAL_BUFFER_SIZE"
    by (simp add: globals_s_ten VEX_SERIAL_BUFFER_SIZE_def)
  have h2: "0 < length (items (write_queue s_ten))"
    by (simp add: globals_s_ten)
  have h3: "length (items (write_queue s_ten)) \<le> unat (vexSerialWriteFree (env_example True) 1)"
    by (simp add: globals_s_ten env_example_def)
  have h4: "3 = unat (vexSerialWriteBuffer (env_example True) 1
                        (queue_get_waiting (write_queue s_ten)))"
    by (simp add: env_example_def)
  show ?thesis
    using ser_output_flush_partial [OF h1 h2 h3 h4]
    by (simp add: globals_s_ten env_example_def)
qed

subsection \<open>Lock timeouts\<close>

text \<open>
  C6. If the read lock is not obtained within its (indefinite) timeout, \<open>ser_read_r\<close>
  returns 0 with \<open>EACCES\<close> stored and the caller's memory untouched. If a write passes
  the filter and the write lock is not obtained within the timeout \<open>t\<close> that the call
  uses, \<open>ser_write_r\<close> returns 0 with \<open>EACCES\<close> stored; the only global it changes
  is the configuration word, masked by the test of line 166, so the output queue is as it
  was.
\<close>

theorem lock_timeout_eacces:
  "(\<not> mutex_take e read_mtx TIMEOUT_MAX \<longrightarrow>
      ser_read_r e r rarg buffer len inp =
        ([Mutex_take read_mtx TIMEOUT_MAX], Ret (0, r\<lparr>errno := Some EACCES\<rparr>, buffer)))
   \<and> (files s arg = Some file
        \<and> (list_contains guaranteed_delivery_streams guaranteed_delivery_streams_size
              (stream_id file)
            \<or> set_contains (enabled_streams_set s) (stream_id file))
        \<and> t = (if ser_driver_runtime_config s AND E_COBS_ENABLED = 0 then TIMEOUT_MAX
                else if flags file AND E_NOBLK_WRITE \<noteq> 0 then Ticks 0
                else TIMEOUT_MAX)
        \<and> \<not> mutex_take e write_mtx t \<longrightarrow>
      ser_write_r e s r arg buf =
        ([Mutex_take write_mtx t],
         Ret (0, s\<lparr>ser_driver_runtime_config := ser_driver_runtime_config s AND E_COBS_ENABLED\<rparr>,
              r\<lparr>errno := Some EACCES\<rparr>)))"
  by (auto simp add: ser_read_r_def ser_write_r_def Let_def)

theorem lock_timeout_eacces_witness:
  "\<not> mutex_take (env_example False) read_mtx TIMEOUT_MAX
   \<and> ser_read_r (env_example False) r_clean (Reserved 0) [9, 9, 9] 2 [65, 66] =
        ([Mutex_take read_mtx TIMEOUT_MAX], Ret (0, \<lparr>errno = Some EACCES\<rparr>, [9, 9, 9]))
   \<and> files s_init (Reserved 1) = Some \<lparr>stream_id = STDOUT_STREAM_ID, flags = 0\<rparr>
   \<and> set_contains (enabled_streams_set s_init) STDOUT_STREAM_ID
   \<and> \<not> mutex_take (env_example False) write_mtx TIMEOUT_MAX
   \<and> ser_write_r (env_example False) s_init r_clean (Reserved 1) [1, 2, 3] =
        ([Mutex_take write_mtx TIMEOUT_MAX], Ret (0, s_init, \<lparr>errno = Some EACCES\<rparr>))
   \<and> write_queue s_init = \<lparr>items = [], capacity = VEX_SERIAL_BUFFER_SIZE\<rparr>"
proof -
  have s: "s_init\<lparr>ser_driver_runtime_config := 1\<rparr> = s_init"
    using globals_s_init(2) by (metis ser_state.surjective ser_state.update_convs(3))
  show ?thesis
    using lock_timeout_eacces [of "env_example False" r_clean "Reserved 0" "[9, 9, 9]" 2
        "[65, 66]" s_init "Reserved 1" "\<lparr>stream_id = STDOUT_STREAM_ID, flags = 0\<rparr>"
        TIMEOUT_MAX "[1, 2, 3]"]
    by (simp add: files_s_init globals_s_init set_contains_def env_example_def r_clean_def
        E_COBS_ENABLED_def E_NOBLK_WRITE_def s)
qed

subsection \<open>Writing with framing disabled\<close>

text \<open>
  \<open>ser_output_write\<close> appends the whole buffer when the queue has room for it, and
  whenever it reports success the queue holds its old bytes followed by the buffer.
\<close>

lemma ser_output_write_room:
  "length (items q) + length buffer \<le> capacity q \<Longrightarrow>
     ser_output_write q buffer noblock = Ret (True, q\<lparr>items := items q @ buffer\<rparr>)"
  by (induction buffer arbitrary: q) (simp_all add: queue_append_def)

lemma ser_output_write_True:
  "ser_output_write q buffer noblock = Ret (True, q') \<Longrightarrow> q' = q\<lparr>items := items q @ buffer\<rparr>"
proof (induction buffer arbitrary: q)
  case Nil
  then show ?case by simp
next
  case (Cons b buffer)
  from Cons.prems have room: "length (items q) < capacity q"
    and rest: "ser_output_write (q\<lparr>items := items q @ [b]\<rparr>) buffer noblock = Ret (True, q')"
    by (auto simp: queue_append_def split: if_splits timeout.splits)
  from Cons.IH [OF rest] show ?case by simp
qed

lemma globals_s_raw:
  "files s_raw (Reserved 1) = Some \<lparr>stream_id = STDOUT_STREAM_ID, flags = 0\<rparr>"
  "files s_raw (Reserved (Suc 0)) = Some \<lparr>stream_id = STDOUT_STREAM_ID, flags = 0\<rparr>"
  "enabled_streams_set s_raw = {STDOUT_STREAM_ID}"
  "ser_driver_runtime_config s_raw = 0"
  "write_queue s_raw = \<lparr>items = [], capacity = VEX_SERIAL_BUFFER_SIZE\<rparr>"
  by (simp_all add: s_raw_def files_s_init globals_s_init)

text \<open>
  C9. Let framing be disabled and the handle's stream be enabled (guaranteed or in the
  registry). If the write lock is obtained and the queue has room for the payload, the
  write returns \<open>len\<close> converted to \<open>int\<close>, which is \<open>len\<close> itself for a queue
  of at most the driver's 2047 bytes; it stores no error, and the queue holds its old
  bytes followed by exactly the payload bytes in order, with no tag byte and no
  delimiter. And whenever the write returns \<open>len\<close>, the queue holds its old bytes
  followed by the payload.
\<close>

theorem ser_write_r_raw:
  assumes "files s arg = Some file"
    and "list_contains guaranteed_delivery_streams guaranteed_delivery_streams_size
           (stream_id file)
         \<or> set_contains (enabled_streams_set s) (stream_id file)"
    and "ser_driver_runtime_config s AND E_COBS_ENABLED = 0"
  shows "(mutex_take e write_mtx TIMEOUT_MAX
          \<and> length (items (write_queue s)) + length buf \<le> capacity (write_queue s) \<longrightarrow>
            ser_write_r e s r arg buf =
              ([Mutex_take write_mtx TIMEOUT_MAX, Mutex_give write_mtx],
               Ret (size_t_to_int (length buf),
                    s\<lparr>ser_driver_runtime_config := 0,
                      write_queue := (write_queue s)\<lparr>items := items (write_queue s) @ buf\<rparr>\<rparr>,
                    r)))
       \<and> (mutex_take e write_mtx TIMEOUT_MAX
          \<and> length (items (write_queue s)) + length buf \<le> capacity (write_queue s)
          \<and> capacity (write_queue s) \<le> VEX_SERIAL_BUFFER_SIZE \<longrightarrow>
            ser_write_r e s r arg buf =
              ([Mutex_take write_mtx TIMEOUT_MAX, Mutex_give write_mtx],
               Ret (int (length buf),
                    s\<lparr>ser_driver_runtime_config := 0,
                      write_queue := (write_queue s)\<lparr>items := items (write_queue s) @ buf\<rparr>\<rparr>,
                    r)))
       \<and> (snd (ser_write_r e s r arg buf) = Ret (n, s', r') \<and> n = int (length buf) \<longrightarrow>
            items (write_queue s') = items (write_queue s) @ buf)"
proof -
  have gen: "ser_write_r e s r arg buf =
          ([Mutex_take write_mtx TIMEOUT_MAX, Mutex_give write_mtx],
           Ret (size_t_to_int (length buf),
                s\<lparr>ser_driver_runtime_config := 0,
                  write_queue := (write_queue s)\<lparr>items := items (write_queue s) @ buf\<rparr>\<rparr>,
                r))"
    if "mutex_take e write_mtx TIMEOUT_MAX"
      and "length (items (write_queue s)) + length buf \<le> capacity (write_queue s)"
    using assms that by (simp add: ser_write_r_def Let_def ser_output_write_room)
  have small: "size_t_to_int (length buf) = int (length buf)"
    if "length (items (write_queue s)) + length buf \<le> capacity (write_queue s)"
      and "capacity (write_queue s) \<le> VEX_SERIAL_BUFFER_SIZE"
  proof -
    from that have "length buf \<le> 2047" by (simp add: VEX_SERIAL_BUFFER_SIZE_def)
    then have "length buf < 2 ^ 31" by simp
    then show ?thesis by (rule size_t_to_int_small)
  qed
  have conv: "items (write_queue s') = items (write_queue s) @ buf"
    if "snd (ser_write_r e s r arg buf) = Ret (n, s', r')" and "n = int (length buf)"
  proof (cases "mutex_take e write_mtx TIMEOUT_MAX")
    case False
    with assms that show ?thesis
      by (auto simp: ser_write_r_def Let_def)
  next
    case True
    show ?thesis
    proof (cases "ser_output_write (write_queue s) buf (flags file AND E_NOBLK_WRITE \<noteq> 0)")
      case (Ret p)
      obtain ok q' where p: "p = (ok, q')" by (cases p)
      show ?thesis
      proof (cases ok)
        case True
        with Ret p have "q' = (write_queue s)\<lparr>items := items (write_queue s) @ buf\<rparr>"
          by (auto dest: ser_output_write_True)
        with assms that \<open>mutex_take e write_mtx TIMEOUT_MAX\<close> Ret p True show ?thesis
          by (auto simp: ser_write_r_def Let_def)
      next
        case False
        with Ret p have "buf \<noteq> []" by (cases buf) auto
        with assms that \<open>mutex_take e write_mtx TIMEOUT_MAX\<close> Ret p False show ?thesis
          by (auto simp: ser_write_r_def Let_def)
      qed
    next
      case Hang
      with assms that True show ?thesis by (auto simp: ser_write_r_def Let_def)
    next
      case Fault
      with assms that True show ?thesis by (auto simp: ser_write_r_def Let_def)
    qed
  qed
  from gen small conv show ?thesis by metis
qed

text \<open>
  The payload 1, 2, 3 written to the standard-output handle with framing off and an empty
  queue: the queue then holds 1, 2, 3.
\<close>

theorem ser_write_r_raw_witness:
  "files s_raw (Reserved 1) = Some \<lparr>stream_id = STDOUT_STREAM_ID, flags = 0\<rparr>
   \<and> set_contains (enabled_streams_set s_raw) STDOUT_STREAM_ID
   \<and> ser_driver_runtime_config s_raw AND E_COBS_ENABLED = 0
   \<and> mutex_take (env_example True) write_mtx TIMEOUT_MAX
   \<and> items (write_queue s_raw) = []
   \<and> capacity (write_queue s_raw) = VEX_SERIAL_BUFFER_SIZE
   \<and> ser_write_r (env_example True) s_raw r_clean (Reserved 1) [1, 2, 3] =
        ([Mutex_take write_mtx TIMEOUT_MAX, Mutex_give write_mtx],
         Ret (3, s_raw\<lparr>ser_driver_runtime_config := 0,
                       write_queue := (write_queue s_raw)\<lparr>items := [1, 2, 3]\<rparr>\<rparr>, r_clean))"
proof -
  let ?f = "\<lparr>stream_id = STDOUT_STREAM_ID, flags = 0\<rparr>"
  have h1: "files s_raw (Reserved 1) = Some ?f"
    by (simp add: globals_s_raw)
  have h2: "list_contains guaranteed_delivery_streams guaranteed_delivery_streams_size
              (stream_id ?f)
            \<or> set_contains (enabled_streams_set s_raw) (stream_id ?f)"
    by (simp add: set_contains_def globals_s_raw)
  have h3: "ser_driver_runtime_config s_raw AND E_COBS_ENABLED = 0"
    by (simp add: globals_s_raw)
  show ?thesis
    using h1 h3 ser_write_r_raw [OF h1 h2 h3, of "env_example True" "[1, 2, 3]" r_clean]
    by (simp add: globals_s_raw env_example_def VEX_SERIAL_BUFFER_SIZE_def set_contains_def
        size_t_to_int_def)
qed


subsection \<open>The blocking verbs of the control interface\<close>

lemma globals_s_full:
  "files s_full (Reserved 1) = Some \<lparr>stream_id = STDOUT_STREAM_ID, flags = 0\<rparr>"
  "files s_full (Reserved (Suc 0)) = Some \<lparr>stream_id = STDOUT_STREAM_ID, flags = 0\<rparr>"
  "enabled_streams_set s_full = {STDOUT_STREAM_ID}"
  "ser_driver_runtime_config s_full = 1"
  "write_queue s_full = \<lparr>items = replicate VEX_SERIAL_BUFFER_SIZE 7,
                          capacity = VEX_SERIAL_BUFFER_SIZE\<rparr>"
  by (simp_all add: s_full_def files_s_init globals_s_init)

text \<open>
  For every state and every handle, the two blocking verbs return 0 and change neither a
  global nor a handle record.
\<close>

lemma serctl_blocking_verbs_unchanged:
  "valid_arg s arg \<Longrightarrow>
     serctl s arg SERCTL_BLKWRITE parameter = Ret (0, s)
     \<and> serctl s arg SERCTL_NOBLKWRITE parameter = Ret (0, s)"
  by (auto simp: serctl_def valid_arg_def Let_def split: option.splits)

text \<open>
  C3. The verbs SET-BLOCKING and SET-NONBLOCKING return 0, but the flag they change is
  that of the local copy \<open>file\<close>, not that of the handle's record. On the driver with
  a full output queue: the standard-output handle has its flag clear;
  \<open>SERCTL_NOBLKWRITE\<close> on it returns 0 and leaves every global and handle record as
  it was, so the flag is still clear; a write on the handle afterwards takes the write
  lock with the indefinite timeout and waits for room in the queue, where a handle whose
  flag is set takes the lock with timeout zero and returns. Likewise
  \<open>SERCTL_BLKWRITE\<close> on a handle whose flag is set returns 0 and leaves the flag set.
\<close>

theorem serctl_noblkwrite_no_effect:
  "files s_full (Reserved 1) = Some \<lparr>stream_id = STDOUT_STREAM_ID, flags = 0\<rparr>
   \<and> serctl s_full (Some (Reserved 1)) SERCTL_NOBLKWRITE 0 = Ret (0, s_full)
   \<and> ser_write_r (env_example True) s_full r_clean (Reserved 1) [1]
       = ([Mutex_take write_mtx TIMEOUT_MAX], Hang)
   \<and> fst (ser_write_r (env_example True)
            (s_full\<lparr>files := (files s_full)(Reserved 1 \<mapsto>
                        \<lparr>stream_id = STDOUT_STREAM_ID, flags = E_NOBLK_WRITE\<rparr>)\<rparr>)
            r_clean (Reserved 1) [1])
       = [Mutex_take write_mtx (Ticks 0), Mutex_give write_mtx]
   \<and> files s_nb (Allocated 0) = Some \<lparr>stream_id = STDOUT_STREAM_ID, flags = E_NOBLK_WRITE\<rparr>
   \<and> serctl s_nb (Some (Allocated 0)) SERCTL_BLKWRITE 0 = Ret (0, s_nb)"
  by (simp add: serctl_def ser_write_r_def globals_s_full files_s_nb Let_def set_contains_def
      list_contains_guaranteed tag_defs E_COBS_ENABLED_def E_NOBLK_WRITE_def
      cobs_encode_measure_def env_example_def queue_append_def)

subsection \<open>Opening\<close>

text \<open>
  The loop of \<open>ser_open_r\<close> stops at the length of the path or at 4, so the test after
  it fails the call exactly for paths of more than four characters.
\<close>

lemma ser_open_r_loop_min:
  "i \<le> 4 \<Longrightarrow> i \<le> length path \<Longrightarrow> ser_open_r_loop path i = min (length path) 4"
proof (induction path i rule: ser_open_r_loop.induct)
  case (1 path i)
  show ?case
  proof (cases "i < 4 \<and> i < length path")
    case True
    with 1 show ?thesis
      by (subst ser_open_r_loop.simps) simp
  next
    case False
    with "1.prems" show ?thesis
      by (subst ser_open_r_loop.simps) auto
  qed
qed

lemma ser_open_r_loop_too_long:
  "(ser_open_r_loop p 0 < length p) = (4 < length p)"
  by (simp add: ser_open_r_loop_min min_less_iff_disj)

lemma ser_open_r_unfold:
  "ser_open_r r kmalloc path =
     (if path = [] then Ret (Return STDOUT_FILENO, r)
      else if 4 < length (strip_separator path)
        then Ret (Return (- 1), r\<lparr>errno := Some ENAMETOOLONG\<rparr>)
      else if strip_separator path = ''sout'' then Ret (Return STDOUT_FILENO, r)
      else if strip_separator path = ''sin'' then Ret (Return STDIN_FILENO, r)
      else if strip_separator path = ''serr'' then Ret (Return STDERR_FILENO, r)
      else (case kmalloc of
              None \<Rightarrow> if strip_separator path = [] then Ret (Vfs_add_entry_r None, r) else Fault
            | Some arg \<Rightarrow>
                Ret (Vfs_add_entry_r
                       (Some (arg\<lparr>stream_id := memcpy_stream (stream_id arg) 0
                                                  (map of_char (strip_separator path))\<rparr>)),
                     r)))"
proof (cases path)
  case Nil
  then show ?thesis by (simp add: ser_open_r_def)
next
  case (Cons c cs)
  then have sp: "(if hd path = CHR ''/'' then tl path else path) = strip_separator path"
    by (simp add: strip_separator_def)
  show ?thesis
    unfolding ser_open_r_def Let_def sp ser_open_r_loop_too_long by (rule refl)
qed

text \<open>
  C8. \<open>ser_open_r\<close> returns the standard-output descriptor for the empty path; for a
  path that is \<open>sout\<close>, \<open>sin\<close> or \<open>serr\<close> once one leading separator is stripped
  it returns the standard-output, standard-input or standard-error descriptor; it returns
  -1 with \<open>ENAMETOOLONG\<close> stored when the stripped path has more than four characters,
  and it returns -1 in no other case.
\<close>

theorem ser_open_r_paths:
  "ser_open_r r kmalloc [] = Ret (Return STDOUT_FILENO, r)
   \<and> (strip_separator path = ''sout'' \<longrightarrow> ser_open_r r kmalloc path = Ret (Return STDOUT_FILENO, r))
   \<and> (strip_separator path = ''sin'' \<longrightarrow> ser_open_r r kmalloc path = Ret (Return STDIN_FILENO, r))
   \<and> (strip_separator path = ''serr'' \<longrightarrow> ser_open_r r kmalloc path = Ret (Return STDERR_FILENO, r))
   \<and> (4 < length (strip_separator path) \<longrightarrow>
         ser_open_r r kmalloc path = Ret (Return (- 1), r\<lparr>errno := Some ENAMETOOLONG\<rparr>))
   \<and> ((\<exists>r'. ser_open_r r kmalloc path = Ret (Return (- 1), r')) = (4 < length (strip_separator path)))"
proof -
  have a: "ser_open_r r kmalloc [] = Ret (Return STDOUT_FILENO, r)"
    by (simp add: ser_open_r_def)
  have long: "ser_open_r r kmalloc path = Ret (Return (- 1), r\<lparr>errno := Some ENAMETOOLONG\<rparr>)"
    if "4 < length (strip_separator path)"
  proof -
    from that have "path \<noteq> []" by (auto simp: strip_separator_def)
    with that show ?thesis by (simp add: ser_open_r_unfold)
  qed
  have ne: "path \<noteq> []" if "strip_separator path \<noteq> []"
    using that by (auto simp: strip_separator_def)
  have names: "ser_open_r r kmalloc path = Ret (Return STDOUT_FILENO, r)"
    if "strip_separator path = ''sout''"
    using that ne by (simp add: ser_open_r_unfold)
  have names2: "ser_open_r r kmalloc path = Ret (Return STDIN_FILENO, r)"
    if "strip_separator path = ''sin''"
    using that ne by (simp add: ser_open_r_unfold)
  have names3: "ser_open_r r kmalloc path = Ret (Return STDERR_FILENO, r)"
    if "strip_separator path = ''serr''"
    using that ne by (simp add: ser_open_r_unfold)
  have only: "4 < length (strip_separator path)"
    if "ser_open_r r kmalloc path = Ret (Return (- 1), r')" for r'
    using that
    by (simp add: ser_open_r_unfold STDOUT_FILENO_def STDIN_FILENO_def STDERR_FILENO_def
        split: if_splits option.splits)
  from a long names names2 names3 only show ?thesis by blast
qed

theorem ser_open_r_paths_witness:
  "ser_open_r r_clean None [] = Ret (Return STDOUT_FILENO, r_clean)
   \<and> strip_separator ''/sout'' = ''sout''
   \<and> ser_open_r r_clean None ''/sout'' = Ret (Return STDOUT_FILENO, r_clean)
   \<and> strip_separator ''sin'' = ''sin''
   \<and> ser_open_r r_clean None ''sin'' = Ret (Return STDIN_FILENO, r_clean)
   \<and> strip_separator ''serr'' = ''serr''
   \<and> ser_open_r r_clean None ''serr'' = Ret (Return STDERR_FILENO, r_clean)
   \<and> 4 < length (strip_separator ''toolong'')
   \<and> ser_open_r r_clean None ''toolong'' = Ret (Return (- 1), \<lparr>errno = Some ENAMETOOLONG\<rparr>)"
  using ser_open_r_paths [of r_clean None "''/sout''"]
    ser_open_r_paths [of r_clean None "''sin''"]
    ser_open_r_paths [of r_clean None "''serr''"]
    ser_open_r_paths [of r_clean None "''toolong''"]
  by (simp add: strip_separator_def r_clean_def)

subsection \<open>Reading\<close>

text \<open>
  A byte widened to the \<open>int32_t\<close> answer is never the "no data" value, narrows back to
  itself, and is the newline character exactly when the byte is.
\<close>

lemma ucast_u8_neq_minus1: "(ucast (b :: u8) :: u32) \<noteq> - 1"
proof
  assume "ucast b = (- 1 :: u32)"
  then have "bit (ucast b :: u32) 8 = bit (- 1 :: u32) 8" by simp
  then have "bit b 8" by (simp add: bit_ucast_iff)
  then show False by (auto dest: bit_imp_le_length)
qed

lemma ucast_u8_back: "(ucast (ucast (b :: u8) :: u32) :: u8) = b"
  by (simp add: ucast_up_ucast_id is_up)

lemma ucast_u8_eq_10: "((ucast (b :: u8) :: u32) = 10) = (b = 10)"
proof
  assume "ucast b = (10 :: u32)"
  then have "(ucast (ucast b :: u32) :: u8) = ucast (10 :: u32)" by simp
  then show "b = 10" by (simp add: ucast_u8_back)
next
  assume "b = 10"
  then show "ucast b = (10 :: u32)" by simp
qed

text \<open>
  The loop against its description, first once a byte is stored, then from the start. A
  byte that finds the caller's memory used up is stored outside it.
\<close>

lemma accumulate_Nil: "accumulate n [] = []"
  by (cases n) simp_all

lemma accumulate_None: "accumulate n (None # xs) = []"
  by (cases n) simp_all

lemma length_accumulate: "length (accumulate n xs) \<le> n"
  by (induction n xs rule: accumulate.induct) simp_all

lemma ser_read_r_loop_accumulate:
  "0 < read \<Longrightarrow> read \<le> len \<Longrightarrow> read \<le> length buffer \<Longrightarrow>
   ser_read_r_loop len (map inp_answer xs) read buffer =
     (if read + length (accumulate (len - read) xs) \<le> length buffer
      then Ret (read + length (accumulate (len - read) xs),
                take read buffer @ accumulate (len - read) xs
                  @ drop (read + length (accumulate (len - read) xs)) buffer)
      else Fault)"
proof (induction xs arbitrary: read buffer)
  case Nil
  then show ?case by (simp add: accumulate_Nil)
next
  case (Cons x xs)
  show ?case
  proof (cases x)
    case None
    with Cons.prems show ?thesis
      by (simp add: inp_answer_def accumulate_None)
  next
    case (Some b)
    show ?thesis
    proof (cases "read < len")
      case False
      with Cons.prems Some show ?thesis by simp
    next
      case True
      then obtain m where m: "len - read = Suc m" "len - Suc read = m"
        by (cases "len - read") auto
      show ?thesis
      proof (cases "read < length buffer")
        case False
        with \<open>read < len\<close> Some m show ?thesis
          by (simp add: inp_answer_def ucast_u8_neq_minus1)
      next
        case inb: True
        show ?thesis
        proof (cases "b = 10")
          case True
          with \<open>read < len\<close> inb Some m show ?thesis
            by (simp add: inp_answer_def upd_conv_take_nth_drop)
        next
          case False
          have step: "ser_read_r_loop len (map inp_answer (x # xs)) read buffer =
                        ser_read_r_loop len (map inp_answer xs) (Suc read) (buffer[read := b])"
            using \<open>read < len\<close> inb Some False
            by (simp add: inp_answer_def ucast_u8_neq_minus1 ucast_u8_eq_10 ucast_u8_back)
          have ih: "ser_read_r_loop len (map inp_answer xs) (Suc read) (buffer[read := b]) =
                      (if Suc read + length (accumulate m xs) \<le> length buffer
                       then Ret (Suc read + length (accumulate m xs),
                                 take (Suc read) (buffer[read := b]) @ accumulate m xs
                                   @ drop (Suc read + length (accumulate m xs)) (buffer[read := b]))
                       else Fault)"
            using Cons.IH [of "Suc read" "buffer[read := b]"] \<open>read < len\<close> inb m
            by simp
          have t: "take (Suc read) (buffer[read := b]) = take read buffer @ [b]"
            using inb by (simp add: take_Suc_conv_app_nth)
          have d: "drop (Suc read + length (accumulate m xs)) (buffer[read := b])
                     = drop (Suc read + length (accumulate m xs)) buffer"
            by (simp add: drop_update_cancel)
          show ?thesis
            unfolding step ih t d using Some False m by simp
        qed
      qed
    qed
  qed
qed

lemma ser_read_r_loop_poll:
  "0 < len \<Longrightarrow>
   ser_read_r_loop len (map inp_answer xs) 0 buffer =
     (case ser_read_r_spec len xs of
        None \<Rightarrow> Hang
      | Some bs \<Rightarrow>
          if length bs \<le> length buffer then Ret (length bs, bs @ drop (length bs) buffer)
          else Fault)"
proof (induction xs)
  case Nil
  then show ?case by (simp add: ser_read_r_spec_def)
next
  case (Cons x xs)
  show ?case
  proof (cases x)
    case None
    with Cons show ?thesis
      by (simp add: inp_answer_def ser_read_r_spec_def)
  next
    case (Some b)
    from Cons.prems obtain m where m: "len = Suc m" by (cases len) auto
    have spec: "ser_read_r_spec len (x # xs) = Some (accumulate len (Some b # xs))"
      using Some by (simp add: ser_read_r_spec_def)
    show ?thesis
    proof (cases "buffer = []")
      case True
      with Cons.prems Some m show ?thesis
        unfolding spec by (simp add: inp_answer_def ucast_u8_neq_minus1)
    next
      case ne: False
      then have inb: "0 < length buffer" and inb1: "Suc 0 \<le> length buffer"
        by (cases buffer; simp)+
      show ?thesis
      proof (cases "b = 10")
        case True
        with Cons.prems inb inb1 Some m show ?thesis
          unfolding spec by (simp add: inp_answer_def upd_conv_take_nth_drop)
      next
        case False
        have step: "ser_read_r_loop len (map inp_answer (x # xs)) 0 buffer =
                      ser_read_r_loop len (map inp_answer xs) (Suc 0) (buffer[0 := b])"
          using Cons.prems inb Some False
          by (simp add: inp_answer_def ucast_u8_neq_minus1 ucast_u8_eq_10 ucast_u8_back)
        have acc: "ser_read_r_loop len (map inp_answer xs) (Suc 0) (buffer[0 := b]) =
                     (if Suc 0 + length (accumulate m xs) \<le> length buffer
                      then Ret (Suc 0 + length (accumulate m xs),
                                take (Suc 0) (buffer[0 := b]) @ accumulate m xs
                                  @ drop (Suc 0 + length (accumulate m xs)) (buffer[0 := b]))
                      else Fault)"
          using ser_read_r_loop_accumulate [of "Suc 0" len "buffer[0 := b]" xs] Cons.prems m inb
          by simp
        have t: "take (Suc 0) (buffer[0 := b]) = [b]"
          using inb by (cases buffer) simp_all
        have d: "drop (Suc 0 + length (accumulate m xs)) (buffer[0 := b])
                   = drop (Suc 0 + length (accumulate m xs)) buffer"
          by (simp add: drop_update_cancel)
        show ?thesis
          unfolding step acc t d spec using False m by simp
      qed
    qed
  qed
qed

lemma ser_read_r_spec_length:
  "ser_read_r_spec len xs = Some bs \<Longrightarrow> length bs \<le> len"
  by (auto simp: ser_read_r_spec_def length_accumulate split: list.splits)

text \<open>
  C7. Let the read lock be obtained, \<open>len > 0\<close>, and the inbound source answer with
  bytes and "no data" signals \<open>xs\<close>. Then \<open>ser_read_r\<close> does what
  \<open>ser_read_r_spec\<close> describes: it polls over "no data" until a first byte comes (for
  ever, if none comes); from then on it stores the bytes one at a time and ends after a
  newline byte, after \<open>len\<close> bytes, or at a "no data" signal; it returns the number of
  bytes stored, which are at the start of the caller's memory, followed by a zero byte.
  This holds for every size of the caller's memory that has room for the bytes and the
  zero; if the bytes fill the memory the store of the zero leaves it, and if they do not
  fit a store in the loop does.
\<close>

theorem ser_read_r_line:
  assumes "mutex_take e read_mtx TIMEOUT_MAX"
    and "0 < len"
  shows "ser_read_r e r arg buffer len (map inp_answer xs) =
          (case ser_read_r_spec len xs of
             None \<Rightarrow> ([Mutex_take read_mtx TIMEOUT_MAX], Hang)
           | Some bs \<Rightarrow>
               if length bs < length buffer then
                 ([Mutex_take read_mtx TIMEOUT_MAX, Mutex_give read_mtx],
                  Ret (int (length bs), r, bs @ 0 # drop (Suc (length bs)) buffer))
               else if length bs = length buffer then
                 ([Mutex_take read_mtx TIMEOUT_MAX, Mutex_give read_mtx], Fault)
               else ([Mutex_take read_mtx TIMEOUT_MAX], Fault))"
proof (cases "ser_read_r_spec len xs")
  case None
  with assms show ?thesis
    by (simp add: ser_read_r_def ser_read_r_loop_poll)
next
  case (Some bs)
  show ?thesis
  proof (cases "length bs < length buffer")
    case True
    then have "(bs @ drop (length bs) buffer)[length bs := 0]
                 = bs @ 0 # drop (Suc (length bs)) buffer"
      by (simp add: list_update_append Cons_nth_drop_Suc [symmetric])
    with assms Some True show ?thesis
      by (simp add: ser_read_r_def ser_read_r_loop_poll)
  next
    case False
    with assms Some show ?thesis
      by (simp add: ser_read_r_def ser_read_r_loop_poll)
  qed
qed

text \<open>
  Reads with the lock obtained: one ended by "no data" after two bytes; one ended by a
  newline, into memory of exactly \<open>len = 4\<close> bytes; one ended by \<open>len = 2\<close>; one
  that fills memory of exactly \<open>len = 2\<close> bytes; and one that polls for ever.
\<close>

theorem ser_read_r_line_witness:
  "mutex_take (env_example True) read_mtx TIMEOUT_MAX
   \<and> ser_read_r_spec 4 [None, None, Some 65, Some 66, None, Some 67] = Some [65, 66]
   \<and> ser_read_r (env_example True) r_clean (Reserved 0) [9, 9, 9, 9, 9] 4
         (map inp_answer [None, None, Some 65, Some 66, None, Some 67]) =
        ([Mutex_take read_mtx TIMEOUT_MAX, Mutex_give read_mtx],
         Ret (2, r_clean, [65, 66, 0, 9, 9]))
   \<and> ser_read_r_spec 4 [Some 65, Some 10, Some 66] = Some [65, 10]
   \<and> ser_read_r (env_example True) r_clean (Reserved 0) [9, 9, 9, 9] 4
         (map inp_answer [Some 65, Some 10, Some 66]) =
        ([Mutex_take read_mtx TIMEOUT_MAX, Mutex_give read_mtx],
         Ret (2, r_clean, [65, 10, 0, 9]))
   \<and> ser_read_r_spec 2 [Some 65, Some 66, Some 67] = Some [65, 66]
   \<and> ser_read_r (env_example True) r_clean (Reserved 0) [9, 9, 9, 9, 9] 2
         (map inp_answer [Some 65, Some 66, Some 67]) =
        ([Mutex_take read_mtx TIMEOUT_MAX, Mutex_give read_mtx],
         Ret (2, r_clean, [65, 66, 0, 9, 9]))
   \<and> ser_read_r (env_example True) r_clean (Reserved 0) [9, 9] 2
         (map inp_answer [Some 65, Some 66, Some 67]) =
        ([Mutex_take read_mtx TIMEOUT_MAX, Mutex_give read_mtx], Fault)
   \<and> ser_read_r_spec 4 [None, None] = None
   \<and> ser_read_r (env_example True) r_clean (Reserved 0) [9, 9, 9, 9, 9] 4
         (map inp_answer [None, None]) =
        ([Mutex_take read_mtx TIMEOUT_MAX], Hang)"
proof -
  have h1: "mutex_take (env_example True) read_mtx TIMEOUT_MAX"
    by (simp add: env_example_def)
  have h2: "(0 :: nat) < 4" "(0 :: nat) < 2" by simp_all
  have s1: "ser_read_r_spec 4 [None, None, Some 65, Some 66, None, Some 67] = Some [65, 66]"
    by code_simp
  have s2: "ser_read_r_spec 4 [Some 65, Some 10, Some 66] = Some [65, 10]"
    by code_simp
  have s3: "ser_read_r_spec 2 [Some 65, Some 66, Some 67] = Some [65, 66]"
    by code_simp
  have s4: "ser_read_r_spec 4 [None, None] = None"
    by code_simp
  show ?thesis
    using h1 s1 s2 s3 s4
      ser_read_r_line [OF h1 h2(1), of r_clean "Reserved 0" "[9, 9, 9, 9, 9]"
        "[None, None, Some 65, Some 66, None, Some 67]"]
      ser_read_r_line [OF h1 h2(1), of r_clean "Reserved 0" "[9, 9, 9, 9]"
        "[Some 65, Some 10, Some 66]"]
      ser_read_r_line [OF h1 h2(2), of r_clean "Reserved 0" "[9, 9, 9, 9, 9]"
        "[Some 65, Some 66, Some 67]"]
      ser_read_r_line [OF h1 h2(2), of r_clean "Reserved 0" "[9, 9]"
        "[Some 65, Some 66, Some 67]"]
      ser_read_r_line [OF h1 h2(1), of r_clean "Reserved 0" "[9, 9, 9, 9, 9]" "[None, None]"]
    by simp
qed






end
